theory Spec2Isabelle
  imports Main "HOL-Library.Sublist" "HOL-Library.AList"
begin

section \<open>Data model\<close>

text \<open>
  A browser \<open>Blob\<close>: a mime type and the bytes it holds. Strings are lists of
  characters; timestamps (\<open>lastEditedUtc\<close>, epoch milliseconds) are integers.
\<close>

record Blob =
  blob_type :: string
  blob_bytes :: "nat list"

text \<open>
  \<open>interface Song\<close> of the database module. The field \<open>id\<close> is written
  \<open>song_id\<close>; the optional fields (\<open>artist?\<close>, ...) are options, \<open>None\<close> for
  an absent (undefined) property.
\<close>

record Song =
  song_id :: string
  blob :: Blob
  lastEditedUtc :: int
  title :: string
  artist :: "string option"
  album :: "string option"
  genre :: "string option"
  year :: "string option"
  cover :: "Blob option"

text \<open>The enums \<open>Comparison\<close> and \<open>Attribute\<close>, and the interfaces \<open>Rule\<close> and \<open>Album\<close>.\<close>

datatype Comparison = Is | IsNot | Includes | DoesNotInclude

datatype Attribute = Title | Artist | Album | Genre

record Rule =
  attribute :: Attribute
  comparison :: Comparison
  data :: string

record Album =
  name :: string
  followAllRules :: bool
  rules :: "Rule list"

section \<open>Smart playlist filter\<close>

text \<open>
  \<open>song[rule.attribute.toLowerCase()]\<close>: the song's property named by the rule's
  attribute. \<open>title\<close> is a required string, the other three may be absent.
\<close>

fun songAttribute :: "Song \<Rightarrow> Attribute \<Rightarrow> string option" where
  "songAttribute s Title = Some (title s)"
| "songAttribute s Artist = artist s"
| "songAttribute s Album = album s"
| "songAttribute s Genre = genre s"

text \<open>
  The callback of \<open>allSongs?.filter\<close> in \<open>filterSongs\<close>: the \<open>for\<close> loop over the
  rules, one equation per iteration. \<open>!attribute\<close> holds for an absent property and
  for the empty string; \<open>attribute.includes(rule.data)\<close> is containment as a
  contiguous substring (\<open>sublist\<close>).
\<close>

fun songMatches :: "bool \<Rightarrow> Rule list \<Rightarrow> Song \<Rightarrow> bool" where
  "songMatches followAll [] song = (if followAll then True else False)"
| "songMatches followAll (rule # rest) song =
     (case songAttribute song (attribute rule) of
        None \<Rightarrow> False
      | Some a \<Rightarrow>
          if a = [] then False
          else if \<not> followAll \<and>
            ((comparison rule = Is \<and> a = data rule) \<or>
             (comparison rule = IsNot \<and> a \<noteq> data rule) \<or>
             (comparison rule = Includes \<and> sublist (data rule) a) \<or>
             (comparison rule = DoesNotInclude \<and> \<not> sublist (data rule) a))
          then True
          else if followAll \<and>
            ((comparison rule = Is \<and> a \<noteq> data rule) \<or>
             (comparison rule = IsNot \<and> a = data rule) \<or>
             (comparison rule = Includes \<and> \<not> sublist (data rule) a) \<or>
             (comparison rule = DoesNotInclude \<and> sublist (data rule) a))
          then False
          else songMatches followAll rest song)"

text \<open>
  \<open>filterSongs\<close>: \<open>allSongs\<close> is the live query's result, undefined (\<open>None\<close>) until
  the first query has answered; \<open>allSongs?.filter\<close> is then undefined as well.
\<close>

definition filterSongs :: "Album \<Rightarrow> Song list option \<Rightarrow> Song list option" where
  "filterSongs a allSongs =
     map_option (filter (songMatches (followAllRules a) (rules a))) allSongs"

section \<open>Record derivation\<close>

text \<open>
  The tag data the metadata extractor returns (\<open>ITags\<close> of the id3 parser, the
  fields the code reads) and the picker's \<open>DocumentObject\<close> (its \<open>id\<close>, \<open>name\<close>
  and \<open>lastEditedUtc\<close>). An image's \<open>data\<close> stands for the buffer the cover is
  built from.
\<close>

record IImage =
  image_mime :: string
  image_data :: "nat list"

record ITags =
  tag_title :: "string option"
  tag_artist :: "string option"
  tag_album :: "string option"
  tag_genre :: "string option"
  tag_year :: "string option"
  tag_image :: "IImage option"

record DocumentObject =
  doc_id :: string
  doc_name :: string
  doc_lastEditedUtc :: int

text \<open>
  JavaScript's \<open>str.split(sep)\<close> for a one-character separator: the pieces between
  the separators, in order; a string without separator is its own single piece.
\<close>

fun split_str :: "char \<Rightarrow> string \<Rightarrow> string list" where
  "split_str sep [] = [[]]"
| "split_str sep (c # cs) =
     (if c = sep then [] # split_str sep cs
      else (case split_str sep cs of
              [] \<Rightarrow> [[c]]
            | w # ws \<Rightarrow> (c # w) # ws))"

text \<open>\<open>str.replaceAll('\u0000', '')\<close>: every NUL character removed.\<close>

definition stripNul :: "string \<Rightarrow> string" where
  "stripNul str = filter (\<lambda>c. c \<noteq> CHR 0x00) str"

text \<open>
  \<open>formatSongToStorage\<close>. \<open>!song.metaData.title\<close> holds for an absent title and for
  the empty one; the fallback is \<open>song.name.split('.')[0]\<close> (the split is never
  empty, see \<open>split_str_not_Nil\<close>).
\<close>

definition formatSongToStorage :: "DocumentObject \<Rightarrow> Blob \<Rightarrow> ITags \<Rightarrow> Song" where
  "formatSongToStorage song b metaData =
     (let fallback = (case split_str CHR ''.'' (doc_name song) of [] \<Rightarrow> [] | w # _ \<Rightarrow> w);
          t = (case tag_title metaData of
                 None \<Rightarrow> fallback
               | Some t0 \<Rightarrow> if t0 = [] then fallback else t0)
      in \<lparr>song_id = doc_id song,
          blob = b,
          lastEditedUtc = doc_lastEditedUtc song,
          title = stripNul t,
          artist = map_option stripNul (tag_artist metaData),
          album = map_option stripNul (tag_album metaData),
          genre = map_option stripNul (tag_genre metaData),
          year = map_option stripNul (tag_year metaData),
          cover = (case tag_image metaData of
                     None \<Rightarrow> None
                   | Some i \<Rightarrow> Some \<lparr>blob_type = image_mime i, blob_bytes = image_data i\<rparr>)\<rparr>)"

text \<open>
  The filename stem in the words of the specification ("the filename with its
  extension removed"): the name up to its last dot, the whole name when it has no dot.
  Only used to compare \<open>formatSongToStorage\<close> with.
\<close>

definition spec_filename_stem :: "string \<Rightarrow> string" where
  "spec_filename_stem nm =
     (if CHR ''.'' \<in> set nm
      then rev (tl (dropWhile (\<lambda>c. c \<noteq> CHR ''.'') (rev nm)))
      else nm)"

section \<open>The song table and ingestion\<close>

datatype error = NetworkError | InvalidMetadata | ConstraintError | ListError | TypeError

text \<open>
  Modelled from the spec: the local store (the Dexie table \<open>songs\<close>, schema
  \<open>'&id, title, album'\<close>) is a library the repository only calls. The table is the
  list of its rows. \<open>get\<close> returns the row of a key, \<open>add\<close> fails when the key is
  taken (the unique primary index \<open>&id\<close>), \<open>update(key, changes)\<close> sets, in every row
  of that key, each property the changes object lists; \<open>formatSongToStorage\<close> lists
  all nine (an undefined value deletes the property, which is the option \<open>None\<close>).
\<close>

definition songs_get :: "Song list \<Rightarrow> string \<Rightarrow> Song option" where
  "songs_get tbl k = find (\<lambda>s. song_id s = k) tbl"

definition songs_add :: "Song list \<Rightarrow> Song \<Rightarrow> error + Song list" where
  "songs_add tbl s =
     (if songs_get tbl (song_id s) \<noteq> None then Inl ConstraintError else Inr (tbl @ [s]))"

definition modify :: "Song \<Rightarrow> Song \<Rightarrow> Song" where
  "modify changes item =
     item\<lparr>song_id := song_id changes,
          blob := blob changes,
          title := title changes,
          lastEditedUtc := lastEditedUtc changes,
          artist := artist changes,
          album := album changes,
          genre := genre changes,
          year := year changes,
          cover := cover changes\<rparr>"

definition songs_update :: "Song list \<Rightarrow> string \<Rightarrow> Song \<Rightarrow> Song list" where
  "songs_update tbl k changes = map (\<lambda>s. if song_id s = k then modify changes s else s) tbl"

text \<open>
  \<open>handleAddSong\<close>, with the download (\<open>fetch(...).then(res => res.blob())\<close>, which
  may reject) and the tag parser (\<open>parse\<close>, which returns \<open>false\<close> for bytes it
  cannot read) as parameters. \<open>Inl e\<close>: the call throws \<open>e\<close> and has not written;
  \<open>Inr tbl\<close>: it returns, the table being \<open>tbl\<close>. A failing \<open>add\<close> is not
  awaited, so it does not make the call throw.
\<close>

definition handleAddSong ::
  "(string \<Rightarrow> error + Blob) \<Rightarrow> (Blob \<Rightarrow> ITags option) \<Rightarrow> Song list \<Rightarrow> DocumentObject
     \<Rightarrow> error + Song list" where
  "handleAddSong fetchBlob parse tbl song =
     (let duplicate = songs_get tbl (doc_id song) in
      if (case duplicate of
            None \<Rightarrow> False
          | Some dup \<Rightarrow> lastEditedUtc dup \<ge> doc_lastEditedUtc song)
      then Inr tbl
      else
        (case fetchBlob (doc_id song) of
           Inl e \<Rightarrow> Inl e
         | Inr b \<Rightarrow>
             (case parse b of
                None \<Rightarrow> Inl InvalidMetadata
              | Some metaData \<Rightarrow>
                  (case duplicate of
                     Some dup \<Rightarrow>
                       Inr (songs_update tbl (doc_id song) (formatSongToStorage song b metaData))
                   | None \<Rightarrow>
                       (case songs_add tbl (formatSongToStorage song b metaData) of
                          Inl e \<Rightarrow> Inr tbl
                        | Inr tbl' \<Rightarrow> Inr tbl')))))"

text \<open>
  The part of \<open>handleAddSong\<close> after \<open>await db.songs.get(song.id)\<close> has answered
  \<open>duplicate\<close>: the download, the parse and the write, on the table as it is when
  the write is made. Calls that run side by side have all read their duplicate before
  any of them writes (a write comes after a download), so the table a call reads and
  the table it writes to differ. An \<open>update\<close> of a key without row changes nothing,
  an \<open>add\<close> of a taken key fails and is not awaited.
\<close>

definition addSongAfterGet ::
  "Song option \<Rightarrow> (string \<Rightarrow> error + Blob) \<Rightarrow> (Blob \<Rightarrow> ITags option) \<Rightarrow> Song list
     \<Rightarrow> DocumentObject \<Rightarrow> error + Song list" where
  "addSongAfterGet duplicate fetchBlob parse tbl song =
     (if (case duplicate of
            None \<Rightarrow> False
          | Some dup \<Rightarrow> lastEditedUtc dup \<ge> doc_lastEditedUtc song)
      then Inr tbl
      else
        (case fetchBlob (doc_id song) of
           Inl e \<Rightarrow> Inl e
         | Inr b \<Rightarrow>
             (case parse b of
                None \<Rightarrow> Inl InvalidMetadata
              | Some metaData \<Rightarrow>
                  (case duplicate of
                     Some dup \<Rightarrow>
                       Inr (songs_update tbl (doc_id song) (formatSongToStorage song b metaData))
                   | None \<Rightarrow>
                       (case songs_add tbl (formatSongToStorage song b metaData) of
                          Inl e \<Rightarrow> Inr tbl
                        | Inr tbl' \<Rightarrow> Inr tbl')))))"

text \<open>
  A picked or listed document together with what the Drive answers beneath it: a file
  that is not a folder, a folder with the files \<open>files.list\<close> returns for it, or a
  folder whose listing request fails. The constructor is the outcome of the test
  \<open>mimeType === 'application/vnd.google-apps.folder'\<close>.
\<close>

datatype DriveItem =
    AudioFile DocumentObject
  | Folder DocumentObject "DriveItem list"
  | UnlistableFolder DocumentObject

text \<open>
  \<open>handleAddFolder\<close>, once all the work it starts has settled: the table that work
  leaves, and the error its promise rejects with (\<open>Some e\<close>, the first error) or
  \<open>None\<close> when it fulfils. The mappers of \<open>Promise.all\<close> start together when the
  listing has answered: every song of the folder reads its duplicate from the table
  of that moment (\<open>tbl0\<close>). The children are listed in the order in which their work
  completes, and their writes are taken in that order; a child that throws leaves its
  siblings running.
\<close>

fun handleAddFolder ::
  "(string \<Rightarrow> error + Blob) \<Rightarrow> (Blob \<Rightarrow> ITags option) \<Rightarrow> DriveItem \<Rightarrow> Song list
     \<Rightarrow> error option \<times> Song list"
and addChildren ::
  "(string \<Rightarrow> error + Blob) \<Rightarrow> (Blob \<Rightarrow> ITags option) \<Rightarrow> Song list \<Rightarrow> DriveItem list \<Rightarrow> Song list
     \<Rightarrow> error option \<times> Song list" where
  "handleAddFolder fetchBlob parse (UnlistableFolder folder) tbl = (Some ListError, tbl)"
| "handleAddFolder fetchBlob parse (Folder folder files) tbl =
     addChildren fetchBlob parse tbl files tbl"
| "handleAddFolder fetchBlob parse (AudioFile doc) tbl = (None, tbl)"
| "addChildren fetchBlob parse tbl0 [] tbl = (None, tbl)"
| "addChildren fetchBlob parse tbl0 (songOrFolder # rest) tbl =
     (let (e1, tbl1) =
            (case songOrFolder of
               AudioFile doc \<Rightarrow>
                 (case addSongAfterGet (songs_get tbl0 (doc_id doc)) fetchBlob parse tbl doc of
                    Inl e \<Rightarrow> (Some e, tbl)
                  | Inr tbl' \<Rightarrow> (None, tbl'))
             | _ \<Rightarrow> handleAddFolder fetchBlob parse songOrFolder tbl);
          (e2, tbl2) = addChildren fetchBlob parse tbl0 rest tbl1
      in ((case e1 of Some e \<Rightarrow> Some e | None \<Rightarrow> e2), tbl2))"

text \<open>The notifications shown to the user: \<open>notify\<close> and \<open>error\<close>.\<close>

datatype Notice = Notify string | ErrorText string | ErrorThrown error

text \<open>
  The state \<open>handlePickerChange\<close> works on: the table, the notifications shown so
  far, the spinner flag and the persisted last-synced text.
\<close>

record Ingest =
  songsTable :: "Song list"
  notices :: "Notice list"
  loadingNewSongs :: bool
  lastUpdated :: string

definition isFolder :: "DriveItem \<Rightarrow> bool" where
  "isFolder songOrFolder = (case songOrFolder of AudioFile doc \<Rightarrow> False | _ \<Rightarrow> True)"

text \<open>
  \<open>Promise.all\<close> over the mappers of \<open>handlePickerChange\<close>, up to the moment it
  settles. The mappers start together: every picked song reads its duplicate from the
  table of the call (\<open>tbl0\<close>), every picked folder is started and not awaited
  (\<open>handleAddFolder(songOrFolder);\<close>), so its mapper fulfils at once, whatever the
  folder's work does later. The picked documents are listed in the order in which
  their work completes. A song that returns has written; at the first song that
  throws \<open>Promise.all\<close> rejects, and the songs listed after it are still in flight.
  The result: the error, the table at that moment, and the folders that were started
  and are pending.
\<close>

fun awaitPicked ::
  "Song list \<Rightarrow> (string \<Rightarrow> error + Blob) \<Rightarrow> (Blob \<Rightarrow> ITags option) \<Rightarrow> DriveItem list \<Rightarrow> Song list
     \<Rightarrow> error option \<times> Song list \<times> DriveItem list" where
  "awaitPicked tbl0 fetchBlob parse [] tbl = (None, tbl, [])"
| "awaitPicked tbl0 fetchBlob parse (songOrFolder # rest) tbl =
     (case songOrFolder of
        AudioFile doc \<Rightarrow>
          (case addSongAfterGet (songs_get tbl0 (doc_id doc)) fetchBlob parse tbl doc of
             Inl e \<Rightarrow> (Some e, tbl, filter isFolder rest)
           | Inr tbl' \<Rightarrow> awaitPicked tbl0 fetchBlob parse rest tbl')
      | _ \<Rightarrow>
          (let (e2, tbl2, pending) = awaitPicked tbl0 fetchBlob parse rest tbl
           in (e2, tbl2, songOrFolder # pending)))"

text \<open>The picked songs that are still in flight when \<open>Promise.all\<close> has rejected.\<close>

fun inFlight ::
  "Song list \<Rightarrow> (string \<Rightarrow> error + Blob) \<Rightarrow> (Blob \<Rightarrow> ITags option) \<Rightarrow> DriveItem list \<Rightarrow> Song list
     \<Rightarrow> DocumentObject list" where
  "inFlight tbl0 fetchBlob parse [] tbl = []"
| "inFlight tbl0 fetchBlob parse (songOrFolder # rest) tbl =
     (case songOrFolder of
        AudioFile doc \<Rightarrow>
          (case addSongAfterGet (songs_get tbl0 (doc_id doc)) fetchBlob parse tbl doc of
             Inl e \<Rightarrow> concat (map (\<lambda>d. case d of AudioFile doc' \<Rightarrow> [doc'] | _ \<Rightarrow> []) rest)
           | Inr tbl' \<Rightarrow> inFlight tbl0 fetchBlob parse rest tbl')
      | _ \<Rightarrow> inFlight tbl0 fetchBlob parse rest tbl)"

text \<open>
  \<open>handlePickerChange\<close>: the state when the call completes, and the folders whose
  work is still pending then. \<open>today\<close> is \<open>dayjs().format('MMM D, YYYY')\<close>.
\<close>

definition handlePickerChange ::
  "(string \<Rightarrow> error + Blob) \<Rightarrow> (Blob \<Rightarrow> ITags option) \<Rightarrow> string \<Rightarrow> DriveItem list \<Rightarrow> Ingest
     \<Rightarrow> Ingest \<times> DriveItem list" where
  "handlePickerChange fetchBlob parse today docs st =
     (let st1 = st\<lparr>loadingNewSongs := True\<rparr>;
          (e, tbl, pending) =
            awaitPicked (songsTable st1) fetchBlob parse docs (songsTable st1)
      in (case e of
            None \<Rightarrow>
              (st1\<lparr>songsTable := tbl,
                   notices := notices st1 @ [Notify ''Songs uploaded and updated''],
                   loadingNewSongs := False,
                   lastUpdated := today\<rparr>, pending)
          | Some err \<Rightarrow>
              (st1\<lparr>songsTable := tbl, notices := notices st1 @ [ErrorThrown err]\<rparr>, pending)))"

text \<open>
  The pending folders' work, once it settles: it writes to the table; a rejection of
  a promise nobody awaits reaches no \<open>catch\<close>, so it shows no notification.
\<close>

fun settlePending ::
  "(string \<Rightarrow> error + Blob) \<Rightarrow> (Blob \<Rightarrow> ITags option) \<Rightarrow> DriveItem list \<Rightarrow> Ingest \<Rightarrow> Ingest" where
  "settlePending fetchBlob parse [] st = st"
| "settlePending fetchBlob parse (folder # rest) st =
     settlePending fetchBlob parse rest
       (st\<lparr>songsTable := snd (handleAddFolder fetchBlob parse folder (songsTable st))\<rparr>)"

text \<open>
  The work of the songs in flight, once it settles: each writes with the duplicate it
  read from the table of the call (\<open>tbl0\<close>); what it throws reaches nobody.
\<close>

fun settleInFlight ::
  "Song list \<Rightarrow> (string \<Rightarrow> error + Blob) \<Rightarrow> (Blob \<Rightarrow> ITags option) \<Rightarrow> DocumentObject list \<Rightarrow> Ingest
     \<Rightarrow> Ingest" where
  "settleInFlight tbl0 fetchBlob parse [] st = st"
| "settleInFlight tbl0 fetchBlob parse (doc # rest) st =
     settleInFlight tbl0 fetchBlob parse rest
       (case addSongAfterGet (songs_get tbl0 (doc_id doc)) fetchBlob parse (songsTable st) doc of
          Inl e \<Rightarrow> st
        | Inr tbl' \<Rightarrow> st\<lparr>songsTable := tbl'\<rparr>)"

text \<open>
  A sequence of ingestions of single documents, each on the table the one before left
  (a call that throws has written nothing).
\<close>

fun ingestAll ::
  "(string \<Rightarrow> error + Blob) \<Rightarrow> (Blob \<Rightarrow> ITags option) \<Rightarrow> Song list \<Rightarrow> DocumentObject list
     \<Rightarrow> Song list" where
  "ingestAll fetchBlob parse tbl [] = tbl"
| "ingestAll fetchBlob parse tbl (doc # docs) =
     ingestAll fetchBlob parse
       (case handleAddSong fetchBlob parse tbl doc of Inl e \<Rightarrow> tbl | Inr tbl' \<Rightarrow> tbl') docs"

section \<open>Object URLs and the cover cache\<close>

text \<open>
  The browser's object URLs. \<open>URL.createObjectURL\<close> mints a URL never returned
  before (numbered in the order of minting); \<open>created\<close> and \<open>revoked\<close> log the calls
  of \<open>createObjectURL\<close> and \<open>revokeObjectURL\<close>.
\<close>

record UrlStore =
  nextUrl :: nat
  created :: "nat list"
  revoked :: "nat list"

definition createObjectURL :: "UrlStore \<Rightarrow> nat \<times> UrlStore" where
  "createObjectURL u = (nextUrl u, u\<lparr>nextUrl := Suc (nextUrl u), created := created u @ [nextUrl u]\<rparr>)"

definition revokeObjectURL :: "nat \<Rightarrow> UrlStore \<Rightarrow> UrlStore" where
  "revokeObjectURL h u = u\<lparr>revoked := revoked u @ [h]\<rparr>"

text \<open>
  An entry of \<open>songToCover\<close>: \<open>{ cover: string; lastUpdatedUtc: number }\<close>. The
  object \<open>songToCover\<close> is an association list in insertion order, as the keys of a
  JavaScript object are.
\<close>

record CoverEntry =
  entry_cover :: nat
  lastUpdatedUtc :: int

type_synonym CoverMap = "(string \<times> CoverEntry) list"

text \<open>
  \<open>allSongs?.forEach\<close> of the refresh effect. It works on two objects: the state
  object \<open>songToCover\<close>, from which \<open>delete songToCover[song.id]\<close> removes an outdated
  entry, and its copy \<open>newSongToCover\<close>, which receives the new entries.
\<close>

fun refreshSongs :: "Song list \<Rightarrow> CoverMap \<times> CoverMap \<times> UrlStore \<Rightarrow> CoverMap \<times> CoverMap \<times> UrlStore" where
  "refreshSongs [] st = st"
| "refreshSongs (song # rest) (songToCover, newSongToCover, u) =
     (let songToCover1 =
            (case map_of songToCover (song_id song) of
               None \<Rightarrow> songToCover
             | Some e \<Rightarrow>
                 if lastEditedUtc song > lastUpdatedUtc e
                 then AList.delete (song_id song) songToCover
                 else songToCover)
      in if map_of songToCover1 (song_id song) = None \<and> cover song \<noteq> None
         then
           (let (h, u1) = createObjectURL u
            in refreshSongs rest
                 (songToCover1,
                  AList.update (song_id song)
                    \<lparr>entry_cover = h, lastUpdatedUtc = lastEditedUtc song\<rparr> newSongToCover,
                  u1))
         else refreshSongs rest (songToCover1, newSongToCover, u))"

text \<open>
  \<open>Object.keys(songToCover).forEach\<close>: the entry of a key that is no song's id is
  revoked and deleted from the copy. \<open>ids\<close> are the keys of \<open>songMap\<close>.
\<close>

fun revokeMissing :: "string list \<Rightarrow> string list \<Rightarrow> CoverMap \<Rightarrow> CoverMap \<times> UrlStore \<Rightarrow> CoverMap \<times> UrlStore" where
  "revokeMissing [] ids songToCover st = st"
| "revokeMissing (k # ks) ids songToCover (newSongToCover, u) =
     (if k \<notin> set ids
      then
        (case map_of songToCover k of
           None \<Rightarrow> revokeMissing ks ids songToCover (newSongToCover, u)
         | Some e \<Rightarrow>
             revokeMissing ks ids songToCover
               (AList.delete k newSongToCover, revokeObjectURL (entry_cover e) u))
      else revokeMissing ks ids songToCover (newSongToCover, u))"

text \<open>
  The refresh effect (\<open>useEffect\<close> on \<open>allSongs\<close>): from the cache and the URL store
  before to those after \<open>setSongToCover(newSongToCover)\<close>. With \<open>allSongs\<close> undefined
  the first loop is skipped and \<open>songMap\<close> is the empty object.
\<close>

definition coverEffect :: "Song list option \<Rightarrow> CoverMap \<times> UrlStore \<Rightarrow> CoverMap \<times> UrlStore" where
  "coverEffect allSongs st =
     (let songs = (case allSongs of None \<Rightarrow> [] | Some xs \<Rightarrow> xs);
          (songToCover1, newSongToCover1, u1) = refreshSongs songs (fst st, fst st, snd st)
      in revokeMissing (map fst songToCover1) (map song_id songs) songToCover1
           (newSongToCover1, u1))"

text \<open>A run of refreshes, one per change of the live song collection.\<close>

fun coverEffects :: "Song list option list \<Rightarrow> CoverMap \<times> UrlStore \<Rightarrow> CoverMap \<times> UrlStore" where
  "coverEffects [] st = st"
| "coverEffects (allSongs # later) st = coverEffects later (coverEffect allSongs st)"

section \<open>Playback selection\<close>

text \<open>
  The state \<open>playSong\<close> reads and writes: the live collection, the albums and the
  active album's name, the loaded song, \<open>audio.src\<close> (\<open>None\<close> for the empty string
  of a fresh audio element, else an object URL), the play flag that \<open>audio.play()\<close>
  raises, the URL store and the notifications. \<open>currentSong\<close> is a \<open>useState\<close>
  value: a \<open>playSong\<close> reads the \<open>currentSong\<close> of the render that made it.
  \<open>onendedSong\<close> is the \<open>currentSong\<close> read by the \<open>playSong\<close> that
  \<open>audio.onended\<close> holds. The albums and the active album's name are hookstate
  values, read as they are at the call.
\<close>

record Player =
  allSongs :: "Song list option"
  albums :: "Album list"
  currentAlbum :: string
  currentSong :: "Song option"
  audio_src :: "nat option"
  playing :: bool
  urls :: UrlStore
  shown :: "Notice list"
  onendedSong :: "Song option"

text \<open>
  The \<open>while\<close> loop of \<open>playSong\<close>. Each \<open>Math.floor(Math.random() *
  filteredSongs.length)\<close> is the next number of \<open>draws\<close>; the loop that has used them
  all and would draw again has not returned (\<open>None\<close>). An index outside the list
  reads \<open>undefined\<close>, whose \<open>.id\<close> throws.
\<close>

fun reroll :: "Song list \<Rightarrow> Song option \<Rightarrow> Song \<Rightarrow> nat list \<Rightarrow> (error + Song) option" where
  "reroll filteredSongs cur newSong [] =
     (if (case cur of None \<Rightarrow> False | Some c \<Rightarrow> song_id newSong = song_id c)
         \<and> length filteredSongs > 1
      then None
      else Some (Inr newSong))"
| "reroll filteredSongs cur newSong (d # ds) =
     (if (case cur of None \<Rightarrow> False | Some c \<Rightarrow> song_id newSong = song_id c)
         \<and> length filteredSongs > 1
      then (if d < length filteredSongs
            then reroll filteredSongs cur (filteredSongs ! d) ds
            else Some (Inl TypeError))
      else Some (Inr newSong))"

text \<open>The end of \<open>playSong\<close>: the song is loaded under a new object URL and played.\<close>

definition loadSong :: "Song \<Rightarrow> Player \<Rightarrow> Player" where
  "loadSong song st =
     (let (h, u1) = createObjectURL (urls st)
      in st\<lparr>currentSong := Some song, audio_src := Some h, playing := True, urls := u1\<rparr>)"

text \<open>
  The album \<open>playSong\<close> filters by: the one named \<open>currentAlbum\<close>, or, when there
  is none of that name, the album without rules under AND mode.
\<close>

definition activeAlbum :: "Player \<Rightarrow> Album" where
  "activeAlbum st =
     (case find (\<lambda>a. name a = currentAlbum st) (albums st) of
        Some a \<Rightarrow> a
      | None \<Rightarrow> \<lparr>name = [], followAllRules = True, rules = []\<rparr>)"

text \<open>
  \<open>playSong(song?)\<close>, as made by a render whose \<open>currentSong\<close> is \<open>seen\<close>.
  \<open>None\<close>: the loop has not returned within the draws given; \<open>Some (Inl e)\<close>: the
  call throws; \<open>Some (Inr st)\<close>: it returns in state \<open>st\<close>. The first statement
  revokes \<open>audio.src\<close> (nothing to revoke for the empty string).
\<close>

definition playSong ::
  "Song option \<Rightarrow> Song option \<Rightarrow> nat list \<Rightarrow> Player \<Rightarrow> (error + Player) option" where
  "playSong seen song draws st =
     (let st1 = st\<lparr>urls := (case audio_src st of
                               None \<Rightarrow> urls st
                             | Some h \<Rightarrow> revokeObjectURL h (urls st))\<rparr>;
          filteredSongs = filterSongs (activeAlbum st) (allSongs st);
          noSongs = st1\<lparr>shown := shown st1 @ [ErrorText ''There are currently no songs to play'']\<rparr>
      in case filteredSongs of
           None \<Rightarrow> Some (Inr noSongs)
         | Some fs \<Rightarrow>
             if fs = [] then Some (Inr noSongs)
             else
               (case song of
                  Some s \<Rightarrow> Some (Inr (loadSong s st1))
                | None \<Rightarrow>
                    (case draws of
                       [] \<Rightarrow> None
                     | d # ds \<Rightarrow>
                         if d < length fs
                         then map_option (map_sum id (\<lambda>s. loadSong s st1))
                                (reroll fs seen (fs ! d) ds)
                         else Some (Inl TypeError))))"

text \<open>
  The callers of \<open>playSong()\<close>. The click handlers (\<open>onClick={() => playSong()}\<close>)
  are made anew by every render, so they read the loaded song. The refresh effect
  runs when \<open>allSongs\<close> changes (its dependencies are \<open>[allSongs]\<close>) and then sets
  \<open>audio.onended = () => playSong()\<close>: the end of a track calls the \<open>playSong\<close> of
  the render in which \<open>allSongs\<close> last changed.
\<close>

definition onClickNext :: "nat list \<Rightarrow> Player \<Rightarrow> (error + Player) option" where
  "onClickNext draws st = playSong (currentSong st) None draws st"

definition allSongsChanged :: "Song list option \<Rightarrow> Player \<Rightarrow> Player" where
  "allSongsChanged live st = st\<lparr>allSongs := live, onendedSong := currentSong st\<rparr>"

definition onended :: "nat list \<Rightarrow> Player \<Rightarrow> (error + Player) option" where
  "onended draws st = playSong (onendedSong st) None draws st"

section \<open>Statement helpers and example inputs\<close>

text \<open>
  The song with the property named by an attribute absent. \<open>title\<close> is a required
  string of \<open>Song\<close>, so for \<open>Title\<close> there is no such song and it is left as it is.
\<close>

definition withoutAttribute :: "Attribute \<Rightarrow> Song \<Rightarrow> Song" where
  "withoutAttribute a s =
     (case a of
        Title \<Rightarrow> s
      | Artist \<Rightarrow> s\<lparr>artist := None\<rparr>
      | Album \<Rightarrow> s\<lparr>album := None\<rparr>
      | Genre \<Rightarrow> s\<lparr>genre := None\<rparr>)"

text \<open>A song with the given id, timestamp and title, no other tag and no cover.\<close>

definition plainSong :: "string \<Rightarrow> int \<Rightarrow> string \<Rightarrow> Song" where
  "plainSong i ts t =
     \<lparr>song_id = i, blob = \<lparr>blob_type = ''audio/mpeg'', blob_bytes = []\<rparr>, lastEditedUtc = ts,
      title = t, artist = None, album = None, genre = None, year = None, cover = None\<rparr>"

text \<open>Example inputs: a downloaded file, tag data without any tag, documents, an idle state.\<close>

definition exBlob :: Blob where
  "exBlob = \<lparr>blob_type = ''audio/mpeg'', blob_bytes = [73, 68, 51]\<rparr>"

definition noTags :: ITags where
  "noTags = \<lparr>tag_title = None, tag_artist = None, tag_album = None, tag_genre = None,
             tag_year = None, tag_image = None\<rparr>"

definition track07 :: DocumentObject where
  "track07 = \<lparr>doc_id = ''a'', doc_name = ''track07.mp3'', doc_lastEditedUtc = 100\<rparr>"

definition musicFolder :: DocumentObject where
  "musicFolder = \<lparr>doc_id = ''f'', doc_name = ''Music'', doc_lastEditedUtc = 90\<rparr>"

definition idle :: Ingest where
  "idle = \<lparr>songsTable = [], notices = [], loadingNewSongs = False, lastUpdated = ''Never''\<rparr>"

text \<open>The object URLs a cover cache holds as current.\<close>

definition handles :: "CoverMap \<Rightarrow> nat set" where
  "handles m = (entry_cover \<circ> snd) ` set m"

text \<open>
  \<open>newSong.id === currentSong?.id\<close> is false: no song is loaded, or the loaded
  song has another id.
\<close>

definition differs :: "Song option \<Rightarrow> Song \<Rightarrow> bool" where
  "differs cur s = (case cur of None \<Rightarrow> True | Some c \<Rightarrow> song_id s \<noteq> song_id c)"

text \<open>
  An album that asks for the genre Jazz, and a player with two songs (neither has a
  genre), the first of them loaded under the object URL 0 and playing; the collection
  arrived before a song was loaded.
\<close>

definition jazzAlbum :: Album where
  "jazzAlbum = \<lparr>name = ''Jazz'', followAllRules = True,
                 rules = [\<lparr>attribute = Genre, comparison = Is, data = ''Jazz''\<rparr>]\<rparr>"

definition loadedPlayer :: Player where
  "loadedPlayer =
     \<lparr>allSongs = Some [plainSong ''a'' 100 ''One'', plainSong ''b'' 100 ''Two''],
      albums = [jazzAlbum],
      currentAlbum = [],
      currentSong = Some (plainSong ''a'' 100 ''One''),
      audio_src = Some 0,
      playing = True,
      urls = \<lparr>nextUrl = 1, created = [0], revoked = []\<rparr>,
      shown = [],
      onendedSong = None\<rparr>"

text \<open>The player of a fresh page: no collection yet, nothing loaded.\<close>

definition freshPlayer :: Player where
  "freshPlayer =
     \<lparr>allSongs = None,
      albums = [],
      currentAlbum = [],
      currentSong = None,
      audio_src = None,
      playing = False,
      urls = \<lparr>nextUrl = 0, created = [], revoked = []\<rparr>,
      shown = [],
      onendedSong = None\<rparr>"

section \<open>Properties of the smart playlist filter\<close>

lemma songMatches_Nil: "filter (songMatches followAll []) songs = (if followAll then songs else [])"
  by simp

text \<open>
  Claim C4. An album whose rule list is empty matches every song of the collection
  under AND mode (\<open>followAllRules\<close> true) and no song under OR mode.
\<close>

theorem filterSongs_empty_rules:
  "filterSongs \<lparr>name = n, followAllRules = True, rules = []\<rparr> (Some songs) = Some songs \<and>
   filterSongs \<lparr>name = n, followAllRules = False, rules = []\<rparr> (Some songs) = Some []"
  by (simp add: filterSongs_def)

text \<open>
  A rule whose attribute the song lacks, or holds as the empty string, ends the loop
  with \<open>false\<close> when the loop reaches it. Under AND mode the loop reaches it or has
  returned \<open>false\<close> before; under OR mode it may have returned \<open>true\<close> before.
\<close>

lemma songMatches_and_falsy:
  "(case songAttribute s (attribute r) of None \<Rightarrow> True | Some a \<Rightarrow> a = []) \<Longrightarrow>
   \<not> songMatches True (pre @ r # post) s"
  by (induction pre) (auto split: option.splits)

lemma songMatches_or_falsy:
  "(case songAttribute s (attribute r) of None \<Rightarrow> True | Some a \<Rightarrow> a = []) \<Longrightarrow>
   \<not> songMatches False pre s \<Longrightarrow> \<not> songMatches False (pre @ r # post) s"
  by (induction pre) (auto split: option.splits if_splits)

text \<open>
  The loop reads a song only through the truthy values of the attributes its rules
  name: an absent property and the empty string are the same to it.
\<close>

lemma songMatches_cong_attr:
  "(\<And>q. q \<in> set rs \<Longrightarrow>
      (case songAttribute s (attribute q) of None \<Rightarrow> [] | Some a \<Rightarrow> a) =
      (case songAttribute s' (attribute q) of None \<Rightarrow> [] | Some a \<Rightarrow> a)) \<Longrightarrow>
   songMatches fa rs s = songMatches fa rs s'"
proof (induction rs)
  case Nil
  then show ?case by simp
next
  case (Cons q rs)
  have eq: "(case songAttribute s (attribute q) of None \<Rightarrow> [] | Some a \<Rightarrow> a) =
      (case songAttribute s' (attribute q) of None \<Rightarrow> [] | Some a \<Rightarrow> a)"
    using Cons.prems by simp
  have ih: "songMatches fa rs s = songMatches fa rs s'"
    using Cons by simp
  show ?case
  proof (cases "songAttribute s (attribute q)")
    case None
    then show ?thesis using eq by (cases "songAttribute s' (attribute q)") auto
  next
    case (Some a)
    then show ?thesis using eq ih by (cases "songAttribute s' (attribute q)") auto
  qed
qed

lemma withoutAttribute_value:
  "songAttribute s b = Some [] \<Longrightarrow>
   (case songAttribute (withoutAttribute b s) q of None \<Rightarrow> [] | Some a \<Rightarrow> a) =
   (case songAttribute s q of None \<Rightarrow> [] | Some a \<Rightarrow> a)"
  by (cases b; cases q) (simp_all add: withoutAttribute_def)

text \<open>
  Claim C3, as stated, fails: under OR mode a song that lacks the attribute of a rule
  is accepted when an earlier rule of the list matches it. The song has the title
  \<open>x\<close> and no artist; the album is in OR mode with the rules "Title is x" and
  "Artist is y"; the filter keeps the song.
\<close>

theorem filterSongs_missing_attribute_counterexample:
  "songAttribute (plainSong ''a'' 1 ''x'') Artist = None \<and>
   filterSongs
     \<lparr>name = ''A'', followAllRules = False,
      rules = [\<lparr>attribute = Title, comparison = Is, data = ''x''\<rparr>,
               \<lparr>attribute = Artist, comparison = Is, data = ''y''\<rparr>]\<rparr>
     (Some [plainSong ''a'' 1 ''x'']) = Some [plainSong ''a'' 1 ''x'']"
  by (simp add: filterSongs_def plainSong_def)

text \<open>
  Claim C3, amended. If the song lacks the attribute referenced by a rule of the
  album, the filter rejects the song under AND mode, and under OR mode unless the
  rules before that rule already accept the song (the rules are evaluated in order,
  and the first rule that matches accepts the song before later rules are read).
\<close>

theorem filterSongs_missing_attribute:
  assumes "rules a = pre @ r # post"
    and "songAttribute s (attribute r) = None"
    and "followAllRules a \<or> \<not> songMatches False pre s"
    and "filterSongs a (Some songs) = Some ys"
  shows "s \<notin> set ys"
proof -
  have "\<not> songMatches (followAllRules a) (rules a) s"
  proof (cases "followAllRules a")
    case True
    then show ?thesis
      using songMatches_and_falsy [of s r pre post] assms(1,2) by simp
  next
    case False
    then show ?thesis
      using songMatches_or_falsy [of s r pre post] assms(1,2,3) by simp
  qed
  then show ?thesis
    using assms(4) by (auto simp: filterSongs_def)
qed

theorem filterSongs_missing_attribute_witness:
  "rules \<lparr>name = ''A'', followAllRules = False,
          rules = [\<lparr>attribute = Title, comparison = Is, data = ''z''\<rparr>,
                   \<lparr>attribute = Artist, comparison = IsNot, data = ''y''\<rparr>]\<rparr>
     = [\<lparr>attribute = Title, comparison = Is, data = ''z''\<rparr>]
       @ \<lparr>attribute = Artist, comparison = IsNot, data = ''y''\<rparr> # [] \<and>
   songAttribute (plainSong ''a'' 1 ''x'')
     (attribute \<lparr>attribute = Artist, comparison = IsNot, data = ''y''\<rparr>) = None \<and>
   \<not> songMatches False [\<lparr>attribute = Title, comparison = Is, data = ''z''\<rparr>] (plainSong ''a'' 1 ''x'') \<and>
   filterSongs
     \<lparr>name = ''A'', followAllRules = False,
      rules = [\<lparr>attribute = Title, comparison = Is, data = ''z''\<rparr>,
               \<lparr>attribute = Artist, comparison = IsNot, data = ''y''\<rparr>]\<rparr>
     (Some [plainSong ''a'' 1 ''x'']) = Some [] \<and>
   plainSong ''a'' 1 ''x'' \<notin> set []"
  using filterSongs_missing_attribute
    [of "\<lparr>name = ''A'', followAllRules = False,
          rules = [\<lparr>attribute = Title, comparison = Is, data = ''z''\<rparr>,
                   \<lparr>attribute = Artist, comparison = IsNot, data = ''y''\<rparr>]\<rparr>"
        "[\<lparr>attribute = Title, comparison = Is, data = ''z''\<rparr>]"
        "\<lparr>attribute = Artist, comparison = IsNot, data = ''y''\<rparr>" "[]"
        "plainSong ''a'' 1 ''x''" "[plainSong ''a'' 1 ''x'']" "[]"]
  by (simp add: filterSongs_def plainSong_def)

text \<open>
  Claim C10. If the property named by a rule's attribute holds the empty string, the
  filter treats the song exactly as if the property were absent (the same verdict for
  every rule list and both modes), and the rule, once the loop reads it, rejects the
  song whatever its comparison and data: "is not" and "does not include" do not match
  either. Under AND mode the song is rejected wherever the rule stands; under OR mode
  it is rejected unless the rules before it already accept the song.
\<close>

theorem songMatches_empty_attribute:
  assumes "songAttribute s (attribute r) = Some []"
  shows "songMatches followAll rs s = songMatches followAll rs (withoutAttribute (attribute r) s) \<and>
         \<not> songMatches followAll (r # post) s \<and>
         \<not> songMatches True (pre @ r # post) s \<and>
         (songMatches False pre s \<or> \<not> songMatches False (pre @ r # post) s)"
proof -
  have same: "songMatches followAll rs s = songMatches followAll rs (withoutAttribute (attribute r) s)"
    using withoutAttribute_value [OF assms]
    by (intro songMatches_cong_attr) simp
  have head: "\<not> songMatches followAll (r # post) s"
    using assms by simp
  have conj: "\<not> songMatches True (pre @ r # post) s"
    using songMatches_and_falsy [of s r pre post] assms by simp
  have disj: "songMatches False pre s \<or> \<not> songMatches False (pre @ r # post) s"
    using songMatches_or_falsy [of s r pre post] assms by auto
  show ?thesis
    using same head conj disj by blast
qed

theorem songMatches_empty_attribute_witness:
  "songAttribute ((plainSong ''a'' 1 ''x'')\<lparr>artist := Some []\<rparr>)
     (attribute \<lparr>attribute = Artist, comparison = IsNot, data = ''y''\<rparr>) = Some [] \<and>
   \<not> songMatches False [\<lparr>attribute = Artist, comparison = IsNot, data = ''y''\<rparr>]
       ((plainSong ''a'' 1 ''x'')\<lparr>artist := Some []\<rparr>) \<and>
   \<not> songMatches False [\<lparr>attribute = Artist, comparison = DoesNotInclude, data = ''y''\<rparr>]
       ((plainSong ''a'' 1 ''x'')\<lparr>artist := Some []\<rparr>)"
  using songMatches_empty_attribute
    [of "(plainSong ''a'' 1 ''x'')\<lparr>artist := Some []\<rparr>"
        "\<lparr>attribute = Artist, comparison = IsNot, data = ''y''\<rparr>" False "[]" "[]" "[]"]
    songMatches_empty_attribute
    [of "(plainSong ''a'' 1 ''x'')\<lparr>artist := Some []\<rparr>"
        "\<lparr>attribute = Artist, comparison = DoesNotInclude, data = ''y''\<rparr>" False "[]" "[]" "[]"]
  by (simp add: plainSong_def)

section \<open>Properties of record derivation\<close>

lemma split_str_not_Nil: "split_str sep s \<noteq> []"
  by (induction s) (auto split: list.splits)

lemma split_str_first:
  "(case split_str sep s of [] \<Rightarrow> [] | w # _ \<Rightarrow> w) = takeWhile (\<lambda>c. c \<noteq> sep) s"
  by (induction s) (auto split: list.splits)

text \<open>
  Without a tag title the stored title is the filename up to its first dot, NUL
  characters removed; with one it is the tag title, NUL characters removed.
\<close>

lemma formatSongToStorage_title_untitled:
  "tag_title m = None \<or> tag_title m = Some [] \<Longrightarrow>
   title (formatSongToStorage d b m) = stripNul (takeWhile (\<lambda>c. c \<noteq> CHR ''.'') (doc_name d))"
  by (auto simp: formatSongToStorage_def Let_def split_str_first)

lemma formatSongToStorage_title_tagged:
  "tag_title m = Some t \<Longrightarrow> t \<noteq> [] \<Longrightarrow> title (formatSongToStorage d b m) = stripNul t"
  by (simp add: formatSongToStorage_def Let_def)

lemma stripNul_nonempty: "stripNul t \<noteq> [] \<longleftrightarrow> (\<exists>c\<in>set t. c \<noteq> CHR 0x00)"
  by (auto simp: stripNul_def filter_empty_conv)

text \<open>
  Claim C7: without a tag title, the stored title is the filename with its extension
  removed. The code evaluated on two files without tags: for \<open>track07.mp3\<close> the
  stored title is the stem \<open>track07\<close>; for \<open>Mr. Brightside.mp3\<close> it is \<open>Mr\<close>,
  where the stem is \<open>Mr. Brightside\<close>: \<open>split('.')[0]\<close> cuts at the first dot,
  not at the extension.
\<close>

theorem formatSongToStorage_title_fallback:
  "title (formatSongToStorage \<lparr>doc_id = ''1'', doc_name = ''track07.mp3'', doc_lastEditedUtc = 100\<rparr>
            exBlob noTags) = ''track07'' \<and>
   spec_filename_stem ''track07.mp3'' = ''track07'' \<and>
   title (formatSongToStorage \<lparr>doc_id = ''2'', doc_name = ''Mr. Brightside.mp3'', doc_lastEditedUtc = 100\<rparr>
            exBlob noTags) = ''Mr'' \<and>
   spec_filename_stem ''Mr. Brightside.mp3'' = ''Mr. Brightside''"
  by (simp add: formatSongToStorage_def noTags_def stripNul_def spec_filename_stem_def)

text \<open>
  Claim C8, as stated, fails: a file named \<open>.mp3\<close> without tag title is stored with
  the empty title.
\<close>

theorem formatSongToStorage_title_empty_counterexample:
  "title (formatSongToStorage \<lparr>doc_id = ''1'', doc_name = ''.mp3'', doc_lastEditedUtc = 100\<rparr>
            exBlob noTags) = []"
  by (simp add: formatSongToStorage_def noTags_def stripNul_def)

text \<open>
  Claim C8, amended. The stored title is non-empty when the tag title has a character
  other than NUL, or when the tag title is absent or empty and the filename has a
  character other than NUL before its first dot.
\<close>

theorem formatSongToStorage_title_nonempty:
  assumes "(\<exists>t. tag_title m = Some t \<and> (\<exists>c\<in>set t. c \<noteq> CHR 0x00)) \<or>
           ((tag_title m = None \<or> tag_title m = Some []) \<and>
            (\<exists>c\<in>set (takeWhile (\<lambda>c. c \<noteq> CHR ''.'') (doc_name d)). c \<noteq> CHR 0x00))"
  shows "title (formatSongToStorage d b m) \<noteq> []"
  using assms
proof (elim disjE exE conjE)
  fix t
  assume t: "tag_title m = Some t" and c: "\<exists>c\<in>set t. c \<noteq> CHR 0x00"
  then have "t \<noteq> []" by auto
  then show ?thesis
    using t c by (simp add: formatSongToStorage_title_tagged stripNul_nonempty)
next
  assume "tag_title m = None"
    and "\<exists>c\<in>set (takeWhile (\<lambda>c. c \<noteq> CHR ''.'') (doc_name d)). c \<noteq> CHR 0x00"
  then show ?thesis
    by (simp add: formatSongToStorage_title_untitled stripNul_nonempty)
next
  assume "tag_title m = Some []"
    and "\<exists>c\<in>set (takeWhile (\<lambda>c. c \<noteq> CHR ''.'') (doc_name d)). c \<noteq> CHR 0x00"
  then show ?thesis
    by (simp add: formatSongToStorage_title_untitled stripNul_nonempty)
qed

theorem formatSongToStorage_title_nonempty_witness:
  "tag_title noTags = None \<and>
   CHR ''t'' \<in> set (takeWhile (\<lambda>c. c \<noteq> CHR ''.'') ''track07.mp3'') \<and>
   title (formatSongToStorage \<lparr>doc_id = ''1'', doc_name = ''track07.mp3'', doc_lastEditedUtc = 100\<rparr>
            exBlob noTags) \<noteq> []"
  using formatSongToStorage_title_nonempty
    [of noTags "\<lparr>doc_id = ''1'', doc_name = ''track07.mp3'', doc_lastEditedUtc = 100\<rparr>" exBlob]
  by (simp add: noTags_def)

section \<open>Properties of the song table and ingestion\<close>

text \<open>An update that lists every property of the row replaces the row.\<close>

lemma modify_all: "modify changes item = changes"
  by (cases changes; cases item) (simp add: modify_def)

lemma songs_get_Some_id: "songs_get tbl k = Some s \<Longrightarrow> song_id s = k"
  by (induction tbl) (auto simp: songs_get_def split: if_splits)

lemma songs_get_None_iff: "songs_get tbl k = None \<longleftrightarrow> k \<notin> song_id ` set tbl"
  by (induction tbl) (auto simp: songs_get_def)

lemma songs_get_update_same:
  "songs_get tbl k = Some old \<Longrightarrow> song_id c = k \<Longrightarrow> songs_get (songs_update tbl k c) k = Some c"
  by (induction tbl) (auto simp: songs_get_def songs_update_def modify_all split: if_splits)

lemma songs_get_update_other:
  "song_id c = k \<Longrightarrow> k' \<noteq> k \<Longrightarrow> songs_get (songs_update tbl k c) k' = songs_get tbl k'"
  by (induction tbl) (auto simp: songs_get_def songs_update_def modify_all)

lemma songs_update_ids:
  "song_id c = k \<Longrightarrow> map song_id (songs_update tbl k c) = map song_id tbl"
  by (induction tbl) (auto simp: songs_update_def modify_all)

lemma formatSongToStorage_id [simp]: "song_id (formatSongToStorage d b m) = doc_id d"
  by (simp add: formatSongToStorage_def Let_def)

lemma handleAddSong_distinct:
  assumes "distinct (map song_id tbl)" and "handleAddSong f p tbl d = Inr tbl'"
  shows "distinct (map song_id tbl')"
  using assms
  by (auto simp: handleAddSong_def Let_def songs_add_def songs_update_ids songs_get_None_iff
      split: option.splits sum.splits if_splits)

lemma ingestAll_distinct:
  "distinct (map song_id tbl) \<Longrightarrow> distinct (map song_id (ingestAll f p tbl docs))"
proof (induction docs arbitrary: tbl)
  case Nil
  then show ?case by simp
next
  case (Cons d docs)
  then show ?case
    by (cases "handleAddSong f p tbl d") (auto dest: handleAddSong_distinct)
qed

text \<open>
  A call of \<open>handleAddSong\<close> throws only when the download or the parser fails, and
  has then written nothing (\<open>Inl\<close> carries no table).
\<close>

lemma handleAddSong_throws:
  "handleAddSong f p tbl d = Inl e \<Longrightarrow>
   (f (doc_id d) = Inl e \<or> (\<exists>b. f (doc_id d) = Inr b \<and> p b = None \<and> e = InvalidMetadata))"
  by (auto simp: handleAddSong_def Let_def split: option.splits sum.splits if_splits)

text \<open>
  \<open>handleAddSong\<close> is its part after the \<open>get\<close>, run on the duplicate the table
  holds. Whatever duplicate was read, the write keeps the ids of the table distinct.
\<close>

lemma handleAddSong_after_get:
  "handleAddSong f p tbl d = addSongAfterGet (songs_get tbl (doc_id d)) f p tbl d"
  by (simp add: handleAddSong_def addSongAfterGet_def)

lemma addSongAfterGet_distinct:
  assumes "distinct (map song_id tbl)" and "addSongAfterGet dup f p tbl d = Inr tbl'"
  shows "distinct (map song_id tbl')"
  using assms
  by (auto simp: addSongAfterGet_def songs_add_def songs_update_ids songs_get_None_iff
      split: option.splits sum.splits if_splits)

text \<open>Folder ingestion keeps the ids of the table distinct as well.\<close>

lemma handleAddFolder_distinct:
  "distinct (map song_id tbl) \<Longrightarrow> distinct (map song_id (snd (handleAddFolder f p item tbl)))"
  "distinct (map song_id tbl) \<Longrightarrow> distinct (map song_id (snd (addChildren f p tbl0 items tbl)))"
proof (induction f p item tbl and f p tbl0 items tbl rule: handleAddFolder_addChildren.induct)
  case (5 f p tbl0 c rest tbl)
  obtain e1 tbl1 where step:
    "(case c of
        AudioFile doc \<Rightarrow>
          (case addSongAfterGet (songs_get tbl0 (doc_id doc)) f p tbl doc of
             Inl e \<Rightarrow> (Some e, tbl)
           | Inr tbl' \<Rightarrow> (None, tbl'))
      | _ \<Rightarrow> handleAddFolder f p c tbl) = (e1, tbl1)"
    by (cases "(case c of
        AudioFile doc \<Rightarrow>
          (case addSongAfterGet (songs_get tbl0 (doc_id doc)) f p tbl doc of
             Inl e \<Rightarrow> (Some e, tbl)
           | Inr tbl' \<Rightarrow> (None, tbl'))
      | _ \<Rightarrow> handleAddFolder f p c tbl)") auto
  have d1: "distinct (map song_id tbl1)"
  proof (cases c)
    case (AudioFile doc)
    then show ?thesis
      using step 5(4) addSongAfterGet_distinct [of tbl "songs_get tbl0 (doc_id doc)" f p doc]
      by (cases "addSongAfterGet (songs_get tbl0 (doc_id doc)) f p tbl doc") auto
  next
    case (Folder d cs)
    then show ?thesis using step 5(1)[of d cs] 5(4) by simp
  next
    case (UnlistableFolder d)
    then show ?thesis using step 5(2)[of d] 5(4) by simp
  qed
  have "distinct (map song_id (snd (addChildren f p tbl0 rest tbl1)))"
    using 5(3)[OF step [symmetric] refl d1] .
  then show ?case
    using step by (auto split: prod.splits)
qed simp_all

text \<open>
  Claim C1. Ingesting a document whose id has a stored record: when the stored
  \<open>lastEditedUtc\<close> is greater than or equal to the candidate's, the table is left as
  it is; when the candidate's is strictly greater (and the download and the parser
  deliver the data the record is derived from), the stored record becomes the
  candidate's derived record, every field, and no other row changes. After any
  sequence of ingestions, starting from a table with one record per id (the empty one,
  say), there is one record per id.
\<close>

theorem handleAddSong_last_writer_wins:
  assumes "songs_get tbl (doc_id d) = Some old"
  shows "(doc_lastEditedUtc d \<le> lastEditedUtc old \<longrightarrow> handleAddSong f p tbl d = Inr tbl) \<and>
         (lastEditedUtc old < doc_lastEditedUtc d \<and> f (doc_id d) = Inr b \<and> p b = Some m \<longrightarrow>
            (\<exists>tbl'. handleAddSong f p tbl d = Inr tbl' \<and>
               songs_get tbl' (doc_id d) = Some (formatSongToStorage d b m) \<and>
               (\<forall>k. k \<noteq> doc_id d \<longrightarrow> songs_get tbl' k = songs_get tbl k) \<and>
               map song_id tbl' = map song_id tbl)) \<and>
         (distinct (map song_id tbl0) \<longrightarrow> distinct (map song_id (ingestAll f p tbl0 docs)))"
proof (intro conjI impI)
  assume "doc_lastEditedUtc d \<le> lastEditedUtc old"
  then show "handleAddSong f p tbl d = Inr tbl"
    using assms by (simp add: handleAddSong_def)
next
  assume a: "lastEditedUtc old < doc_lastEditedUtc d \<and> f (doc_id d) = Inr b \<and> p b = Some m"
  let ?new = "formatSongToStorage d b m"
  let ?tbl = "songs_update tbl (doc_id d) ?new"
  have run: "handleAddSong f p tbl d = Inr ?tbl"
    using assms a by (simp add: handleAddSong_def)
  have same: "songs_get ?tbl (doc_id d) = Some ?new"
    using assms by (simp add: songs_get_update_same)
  have other: "\<forall>k. k \<noteq> doc_id d \<longrightarrow> songs_get ?tbl k = songs_get tbl k"
    by (simp add: songs_get_update_other)
  have ids: "map song_id ?tbl = map song_id tbl"
    by (simp add: songs_update_ids)
  show "\<exists>tbl'. handleAddSong f p tbl d = Inr tbl' \<and>
               songs_get tbl' (doc_id d) = Some (formatSongToStorage d b m) \<and>
               (\<forall>k. k \<noteq> doc_id d \<longrightarrow> songs_get tbl' k = songs_get tbl k) \<and>
               map song_id tbl' = map song_id tbl"
    using run same other ids by blast
next
  assume "distinct (map song_id tbl0)"
  then show "distinct (map song_id (ingestAll f p tbl0 docs))"
    by (rule ingestAll_distinct)
qed

theorem handleAddSong_last_writer_wins_witness:
  "songs_get [plainSong ''a'' 100 ''Old''] (doc_id track07) = Some (plainSong ''a'' 100 ''Old'') \<and>
   handleAddSong (\<lambda>i. Inr exBlob) (\<lambda>b. Some noTags) [plainSong ''a'' 100 ''Old'']
     (track07\<lparr>doc_lastEditedUtc := 50\<rparr>) = Inr [plainSong ''a'' 100 ''Old''] \<and>
   handleAddSong (\<lambda>i. Inr exBlob) (\<lambda>b. Some noTags) [plainSong ''a'' 100 ''Old'']
     (track07\<lparr>doc_lastEditedUtc := 150\<rparr>) =
     Inr [formatSongToStorage (track07\<lparr>doc_lastEditedUtc := 150\<rparr>) exBlob noTags] \<and>
   distinct (map song_id [plainSong ''a'' 100 ''Old'']) \<and>
   distinct (map song_id (ingestAll (\<lambda>i. Inr exBlob) (\<lambda>b. Some noTags) [plainSong ''a'' 100 ''Old'']
     [track07\<lparr>doc_lastEditedUtc := 50\<rparr>, track07\<lparr>doc_lastEditedUtc := 150\<rparr>, track07]))"
  using handleAddSong_last_writer_wins
    [of "[plainSong ''a'' 100 ''Old'']" "track07\<lparr>doc_lastEditedUtc := 50\<rparr>" "plainSong ''a'' 100 ''Old''"
        "\<lambda>i. Inr exBlob" "\<lambda>b. Some noTags" exBlob noTags "[plainSong ''a'' 100 ''Old'']"
        "[track07\<lparr>doc_lastEditedUtc := 50\<rparr>, track07\<lparr>doc_lastEditedUtc := 150\<rparr>, track07]"]
    handleAddSong_last_writer_wins
    [of "[plainSong ''a'' 100 ''Old'']" "track07\<lparr>doc_lastEditedUtc := 150\<rparr>" "plainSong ''a'' 100 ''Old''"
        "\<lambda>i. Inr exBlob" "\<lambda>b. Some noTags" exBlob noTags "[]" "[]"]
  by (simp add: songs_get_def plainSong_def track07_def handleAddSong_def songs_update_def modify_all)


text \<open>
  \<open>handlePickerChange\<close> shows one notification per call: the success notice when no
  awaited song threw, else the first error.
\<close>

lemma handlePickerChange_one_notice:
  "\<exists>n. notices (fst (handlePickerChange f p today docs st)) = notices st @ [n]"
  by (auto simp: handlePickerChange_def Let_def split: prod.splits option.splits)

text \<open>
  Two runs of the mappers side by side. One id picked twice on an empty table: both
  songs have read that there is no duplicate, the first \<open>add\<close> stores the row and
  the second is refused, so the row of the first stays. A song that throws before its
  sibling has written: the call completes with the error, the table as it was and the
  sibling in flight, and the sibling's row arrives when its work settles.
\<close>

lemma awaitPicked_same_id_twice:
  "awaitPicked [] (\<lambda>i. Inr exBlob) (\<lambda>b. Some noTags)
     [AudioFile track07, AudioFile (track07\<lparr>doc_lastEditedUtc := 150\<rparr>)] [] =
   (None, [formatSongToStorage track07 exBlob noTags], [])"
  by (simp add: addSongAfterGet_def songs_get_def songs_add_def)

lemma handlePickerChange_rejects_first:
  "handlePickerChange (\<lambda>i. if i = ''x'' then Inl NetworkError else Inr exBlob) (\<lambda>b. Some noTags)
     ''Nov 2, 2026'' [AudioFile (track07\<lparr>doc_id := ''x''\<rparr>), AudioFile track07] idle =
     (\<lparr>songsTable = [], notices = [ErrorThrown NetworkError],
       loadingNewSongs = True, lastUpdated = ''Never''\<rparr>, []) \<and>
   inFlight [] (\<lambda>i. if i = ''x'' then Inl NetworkError else Inr exBlob) (\<lambda>b. Some noTags)
     [AudioFile (track07\<lparr>doc_id := ''x''\<rparr>), AudioFile track07] [] = [track07] \<and>
   songsTable (settleInFlight [] (\<lambda>i. if i = ''x'' then Inl NetworkError else Inr exBlob)
     (\<lambda>b. Some noTags) [track07]
     \<lparr>songsTable = [], notices = [ErrorThrown NetworkError],
      loadingNewSongs = True, lastUpdated = ''Never''\<rparr>) =
     [formatSongToStorage track07 exBlob noTags]"
  by (simp add: handlePickerChange_def idle_def addSongAfterGet_def songs_get_def songs_add_def
      track07_def isFolder_def)

text \<open>
  Claim C9: the call completes only after all spawned work, nested folder recursion
  included, has settled, and shows the success or the failure notice. The code
  evaluated on a picked folder that holds one song: the call completes with the
  success notice while the folder is pending and the table is still empty; the song
  is stored only when the pending folder settles. On a picked folder whose listing
  fails, the call completes with the success notice as well, and the folder's error
  shows no notification. \<open>handlePickerChange\<close> calls \<open>handleAddFolder\<close> without
  \<open>await\<close>, where \<open>handleAddFolder\<close> awaits its sub-folders.
\<close>

theorem handlePickerChange_folder_not_awaited:
  "handlePickerChange (\<lambda>i. Inr exBlob) (\<lambda>b. Some noTags) ''Nov 2, 2026''
     [Folder musicFolder [AudioFile track07]] idle =
     (\<lparr>songsTable = [], notices = [Notify ''Songs uploaded and updated''],
       loadingNewSongs = False, lastUpdated = ''Nov 2, 2026''\<rparr>,
      [Folder musicFolder [AudioFile track07]]) \<and>
   songsTable (settlePending (\<lambda>i. Inr exBlob) (\<lambda>b. Some noTags) [Folder musicFolder [AudioFile track07]]
     \<lparr>songsTable = [], notices = [Notify ''Songs uploaded and updated''],
      loadingNewSongs = False, lastUpdated = ''Nov 2, 2026''\<rparr>) =
     [formatSongToStorage track07 exBlob noTags] \<and>
   handlePickerChange (\<lambda>i. Inr exBlob) (\<lambda>b. Some noTags) ''Nov 2, 2026''
     [UnlistableFolder musicFolder] idle =
     (\<lparr>songsTable = [], notices = [Notify ''Songs uploaded and updated''],
       loadingNewSongs = False, lastUpdated = ''Nov 2, 2026''\<rparr>,
      [UnlistableFolder musicFolder]) \<and>
   handleAddFolder (\<lambda>i. Inr exBlob) (\<lambda>b. Some noTags) (UnlistableFolder musicFolder) [] =
     (Some ListError, []) \<and>
   notices (settlePending (\<lambda>i. Inr exBlob) (\<lambda>b. Some noTags) [UnlistableFolder musicFolder]
     \<lparr>songsTable = [], notices = [Notify ''Songs uploaded and updated''],
      loadingNewSongs = False, lastUpdated = ''Nov 2, 2026''\<rparr>) =
     [Notify ''Songs uploaded and updated'']"
  by (simp add: handlePickerChange_def idle_def addSongAfterGet_def songs_get_def songs_add_def)

section \<open>Properties of the cover cache\<close>

lemma handles_delete: "handles (AList.delete k m) \<subseteq> handles m"
  by (auto simp: handles_def AList.delete_eq)

lemma handles_update: "handles (AList.update k e m) \<subseteq> insert (entry_cover e) (handles m)"
  by (induction m) (auto simp: handles_def)

lemma map_of_handles: "map_of m k = Some e \<Longrightarrow> entry_cover e \<in> handles m"
  by (force simp: handles_def dest: map_of_SomeD)

text \<open>
  The first loop revokes nothing; the URLs its copy holds afterwards are those it held
  and those minted meanwhile.
\<close>

lemma refreshSongs_urls:
  "refreshSongs songs (S, N, u) = (S', N', u') \<Longrightarrow>
   revoked u' = revoked u \<and> nextUrl u \<le> nextUrl u' \<and>
   handles S' \<subseteq> handles S \<and>
   handles N' \<subseteq> handles N \<union> {nextUrl u ..< nextUrl u'}"
proof (induction songs arbitrary: S N u)
  case Nil
  then show ?case by simp
next
  case (Cons song rest)
  define S1 where "S1 =
    (case map_of S (song_id song) of
       None \<Rightarrow> S
     | Some e \<Rightarrow> if lastEditedUtc song > lastUpdatedUtc e then AList.delete (song_id song) S else S)"
  have S1: "handles S1 \<subseteq> handles S"
    using handles_delete [of "song_id song" S] by (auto simp: S1_def split: option.splits)
  show ?case
  proof (cases "map_of S1 (song_id song) = None \<and> cover song \<noteq> None")
    case True
    let ?N1 = "AList.update (song_id song) \<lparr>entry_cover = nextUrl u, lastUpdatedUtc = lastEditedUtc song\<rparr> N"
    let ?u1 = "u\<lparr>nextUrl := Suc (nextUrl u), created := created u @ [nextUrl u]\<rparr>"
    have run: "refreshSongs rest (S1, ?N1, ?u1) = (S', N', u')"
      using Cons.prems True by (simp add: S1_def [symmetric] createObjectURL_def)
    have N1: "handles ?N1 \<subseteq> insert (nextUrl u) (handles N)"
      using handles_update [of "song_id song" "\<lparr>entry_cover = nextUrl u, lastUpdatedUtc = lastEditedUtc song\<rparr>" N]
      by simp
    from Cons.IH [OF run] S1 N1 show ?thesis
      by (auto simp: subset_iff)
  next
    case False
    have run: "refreshSongs rest (S1, N, u) = (S', N', u')"
      using Cons.prems False by (simp add: S1_def [symmetric] del: not_None_eq)
    from Cons.IH [OF run] S1 show ?thesis
      by auto
  qed
qed

text \<open>The second loop mints nothing and revokes only URLs of entries of \<open>songToCover\<close>.\<close>

lemma revokeMissing_urls:
  "revokeMissing ks ids S (N, u) = (N', u') \<Longrightarrow>
   nextUrl u' = nextUrl u \<and> handles N' \<subseteq> handles N \<and>
   set (revoked u') \<subseteq> set (revoked u) \<union> handles S"
proof (induction ks arbitrary: N u)
  case Nil
  then show ?case by simp
next
  case (Cons k ks)
  show ?case
  proof (cases "k \<notin> set ids")
    case True
    show ?thesis
    proof (cases "map_of S k")
      case None
      then show ?thesis using Cons True by simp
    next
      case (Some e)
      have run: "revokeMissing ks ids S (AList.delete k N, revokeObjectURL (entry_cover e) u) = (N', u')"
        using Cons.prems True Some by simp
      from Cons.IH [OF run] handles_delete [of k N] map_of_handles [OF Some]
      show ?thesis
        by (auto simp: revokeObjectURL_def)
    qed
  next
    case False
    then show ?thesis using Cons by simp
  qed
qed

lemma coverEffect_urls:
  assumes "coverEffect live (m, u) = (m', u')"
  shows "nextUrl u \<le> nextUrl u' \<and>
         handles m' \<subseteq> handles m \<union> {nextUrl u ..< nextUrl u'} \<and>
         set (revoked u') \<subseteq> set (revoked u) \<union> handles m"
proof -
  define songs where "songs = (case live of None \<Rightarrow> [] | Some xs \<Rightarrow> xs)"
  obtain S1 N1 u1 where r: "refreshSongs songs (m, m, u) = (S1, N1, u1)"
    by (cases "refreshSongs songs (m, m, u)") auto
  have rest: "revokeMissing (map fst S1) (map song_id songs) S1 (N1, u1) = (m', u')"
    using assms r by (simp add: coverEffect_def songs_def [symmetric])
  from refreshSongs_urls [OF r] revokeMissing_urls [OF rest] show ?thesis
    by auto
qed

text \<open>
  A refresh revokes only URLs the cache holds. So a URL that was minted, is not in the
  cache and is not revoked stays unrevoked through every later refresh.
\<close>

lemma coverEffects_never_revoked:
  "h < nextUrl u \<Longrightarrow> h \<notin> handles m \<Longrightarrow> h \<notin> set (revoked u) \<Longrightarrow>
   h \<notin> set (revoked (snd (coverEffects later (m, u))))"
proof (induction later arbitrary: m u)
  case Nil
  then show ?case by simp
next
  case (Cons live later)
  obtain m' u' where step: "coverEffect live (m, u) = (m', u')"
    by (cases "coverEffect live (m, u)") auto
  from coverEffect_urls [OF step] Cons.prems
  have "h < nextUrl u'" "h \<notin> handles m'" "h \<notin> set (revoked u')"
    by auto
  then show ?case
    using Cons.IH [of u' m'] step by simp
qed

lemma coverEffects_append:
  "coverEffects (xs @ ys) st = coverEffects ys (coverEffects xs st)"
  by (induction xs arbitrary: st) auto

text \<open>
  Claim C2: every created cover handle is released exactly once, on staleness or on
  deletion of its song. The code evaluated on a song with a cover that is first seen
  with \<open>lastEditedUtc\<close> 100 and then with 150: the first refresh creates the URL 0,
  the second creates the URL 1 and puts it in the place of 0 without revoking 0
  (\<open>delete songToCover[song.id]\<close> only removes the entry of the old state object).
  The URL 0 is in no cache any more and is revoked by no later refresh, whatever the
  song collections \<open>later\<close>. Deleting the song then revokes the URL 1: two URLs
  created, one revoked.
\<close>

theorem coverEffect_stale_handle_leaks:
  "coverEffects
     [Some [(plainSong ''a'' 100 ''T'')\<lparr>cover := Some exBlob\<rparr>],
      Some [(plainSong ''a'' 150 ''T'')\<lparr>cover := Some exBlob\<rparr>]]
     ([], \<lparr>nextUrl = 0, created = [], revoked = []\<rparr>) =
     ([(''a'', \<lparr>entry_cover = 1, lastUpdatedUtc = 150\<rparr>)],
      \<lparr>nextUrl = 2, created = [0, 1], revoked = []\<rparr>) \<and>
   0 \<notin> set (revoked (snd (coverEffects
     ([Some [(plainSong ''a'' 100 ''T'')\<lparr>cover := Some exBlob\<rparr>],
       Some [(plainSong ''a'' 150 ''T'')\<lparr>cover := Some exBlob\<rparr>]] @ later)
     ([], \<lparr>nextUrl = 0, created = [], revoked = []\<rparr>)))) \<and>
   coverEffects
     [Some [(plainSong ''a'' 100 ''T'')\<lparr>cover := Some exBlob\<rparr>],
      Some [(plainSong ''a'' 150 ''T'')\<lparr>cover := Some exBlob\<rparr>],
      Some []]
     ([], \<lparr>nextUrl = 0, created = [], revoked = []\<rparr>) =
     ([], \<lparr>nextUrl = 2, created = [0, 1], revoked = [1]\<rparr>)"
proof -
  let ?run = "[Some [(plainSong ''a'' 100 ''T'')\<lparr>cover := Some exBlob\<rparr>],
      Some [(plainSong ''a'' 150 ''T'')\<lparr>cover := Some exBlob\<rparr>]]"
  let ?u0 = "\<lparr>nextUrl = 0, created = [], revoked = []\<rparr>"
  have two: "coverEffects ?run ([], ?u0) =
     ([(''a'', \<lparr>entry_cover = 1, lastUpdatedUtc = 150\<rparr>)],
      \<lparr>nextUrl = 2, created = [0, 1], revoked = []\<rparr>)"
    by (simp add: coverEffect_def plainSong_def createObjectURL_def AList.delete_eq)
  have never: "0 \<notin> set (revoked (snd (coverEffects (?run @ later) ([], ?u0))))"
    unfolding coverEffects_append two
    by (rule coverEffects_never_revoked) (simp_all add: handles_def)
  have three: "coverEffects (?run @ [Some []]) ([], ?u0) =
     ([], \<lparr>nextUrl = 2, created = [0, 1], revoked = [1]\<rparr>)"
    unfolding coverEffects_append two
    by (simp add: coverEffect_def revokeObjectURL_def AList.delete_eq)
  show ?thesis
    using two never three by simp
qed

section \<open>Properties of playback selection\<close>

text \<open>
  With no song to play, \<open>playSong\<close> shows the error and leaves every variable of the
  player as it was; the object URL in \<open>audio.src\<close> has been revoked before the test.
\<close>

lemma playSong_no_songs:
  "filterSongs (activeAlbum st) (allSongs st) = None \<or>
   filterSongs (activeAlbum st) (allSongs st) = Some [] \<Longrightarrow>
   playSong seen song draws st =
     Some (Inr (st\<lparr>urls := (case audio_src st of
                               None \<Rightarrow> urls st
                             | Some h \<Rightarrow> revokeObjectURL h (urls st)),
                    shown := shown st @ [ErrorText ''There are currently no songs to play'']\<rparr>))"
  by (auto simp: playSong_def Let_def)

text \<open>
  Claim C5: with an empty matching set, next-track selection reports "no songs to
  play" and leaves the playback state unchanged. The code evaluated on a player with
  a song loaded under the object URL 0 and playing, once the album Jazz, which
  matches no song, is the active one: the call shows the error; the loaded song,
  \<open>audio.src\<close> and the play flag are as before; and the URL 0, which \<open>audio.src\<close>
  still holds, has been revoked (\<open>URL.revokeObjectURL(audio.src)\<close> is the first
  statement, before the test for an empty set). This holds whichever \<open>currentSong\<close>
  the call sees, so for a click as for the end of a track.
\<close>

theorem playSong_no_songs_revokes:
  "filterSongs (activeAlbum (loadedPlayer\<lparr>currentAlbum := ''Jazz''\<rparr>))
     (allSongs (loadedPlayer\<lparr>currentAlbum := ''Jazz''\<rparr>)) = Some [] \<and>
   playSong seen None [] (loadedPlayer\<lparr>currentAlbum := ''Jazz''\<rparr>) =
     Some (Inr (loadedPlayer
       \<lparr>currentAlbum := ''Jazz'',
        urls := \<lparr>nextUrl = 1, created = [0], revoked = [0]\<rparr>,
        shown := [ErrorText ''There are currently no songs to play'']\<rparr>)) \<and>
   audio_src (loadedPlayer\<lparr>currentAlbum := ''Jazz''\<rparr>) = Some 0"
  by (simp add: playSong_def loadedPlayer_def jazzAlbum_def activeAlbum_def filterSongs_def
      plainSong_def revokeObjectURL_def)

text \<open>
  The loop returns a song of the list (or the first pick); with more than one song in
  the list, one that is not the loaded song. It returns as soon as a draw picks such a
  song, and at once when the list has one song.
\<close>

lemma reroll_short: "length fs \<le> 1 \<Longrightarrow> reroll fs cur new draws = Some (Inr new)"
  by (cases draws) auto

lemma reroll_result:
  "\<forall>d\<in>set draws. d < length fs \<Longrightarrow> reroll fs cur new draws = Some r \<Longrightarrow>
   \<exists>s. r = Inr s \<and> (s = new \<or> s \<in> set fs) \<and> (1 < length fs \<longrightarrow> differs cur s)"
proof (induction draws arbitrary: new)
  case Nil
  then show ?case by (auto simp: differs_def split: if_splits option.splits)
next
  case (Cons d ds)
  show ?case
  proof (cases "(case cur of None \<Rightarrow> False | Some c \<Rightarrow> song_id new = song_id c) \<and> length fs > 1")
    case True
    then have "reroll fs cur (fs ! d) ds = Some r"
      using Cons.prems by simp
    then obtain s where "r = Inr s" "s = fs ! d \<or> s \<in> set fs" "1 < length fs \<longrightarrow> differs cur s"
      using Cons.IH [of "fs ! d"] Cons.prems(1) by auto
    then show ?thesis
      using Cons.prems(1) by auto
  next
    case False
    then have "r = Inr new" using Cons.prems by auto
    then show ?thesis
      using False by (auto simp: differs_def split: option.splits)
  qed
qed

lemma reroll_returns:
  "\<forall>d\<in>set draws. d < length fs \<Longrightarrow> \<exists>d\<in>set draws. differs cur (fs ! d) \<Longrightarrow>
   \<exists>s. reroll fs cur new draws = Some (Inr s)"
proof (induction draws arbitrary: new)
  case Nil
  then show ?case by simp
next
  case (Cons d ds)
  show ?case
  proof (cases "differs cur (fs ! d)")
    case True
    have "reroll fs cur (fs ! d) ds = Some (Inr (fs ! d))"
      using True by (cases ds) (auto simp: differs_def split: option.splits)
    then show ?thesis
      using Cons.prems(1) by auto
  next
    case False
    then have "\<exists>d\<in>set ds. differs cur (fs ! d)"
      using Cons.prems(2) by auto
    then have "\<exists>s. reroll fs cur (fs ! d) ds = Some (Inr s)"
      using Cons.IH [of "fs ! d"] Cons.prems(1) by auto
    then show ?thesis
      using Cons.prems(1) by auto
  qed
qed

text \<open>
  Among two or more songs with distinct ids (the rows of the table have distinct ids)
  there is one that is not the loaded song: a draw that ends the loop exists.
\<close>

lemma differs_exists:
  assumes "distinct (map song_id fs)" and "2 \<le> length fs"
  shows "\<exists>d<length fs. differs cur (fs ! d)"
proof (cases cur)
  case None
  then show ?thesis using assms(2) by (auto simp: differs_def intro: exI [of _ 0])
next
  case (Some c)
  have len: "0 < length fs" "1 < length fs" using assms(2) by auto
  show ?thesis
  proof (cases "song_id (fs ! 0) = song_id c")
    case True
    have "map song_id fs ! 1 \<noteq> map song_id fs ! 0"
      using assms(1) len nth_eq_iff_index_eq [of "map song_id fs" 1 0] by simp
    then have "song_id (fs ! 1) \<noteq> song_id (fs ! 0)"
      using len by (simp del: One_nat_def)
    then have "differs cur (fs ! 1)"
      using True Some by (simp add: differs_def)
    then show ?thesis using len by blast
  next
    case False
    then have "differs cur (fs ! 0)"
      using Some by (simp add: differs_def)
    then show ?thesis using len by blast
  qed
qed

lemma loadSong_currentSong [simp]: "currentSong (loadSong s st) = Some s"
  by (simp add: loadSong_def createObjectURL_def)

lemma loadSong_frame [simp]:
  "allSongs (loadSong s st) = allSongs st"
  "albums (loadSong s st) = albums st"
  "currentAlbum (loadSong s st) = currentAlbum st"
  by (simp_all add: loadSong_def createObjectURL_def)

lemma playSong_frame:
  assumes "playSong seen song draws st = Some (Inr st')"
  shows "allSongs st' = allSongs st \<and> albums st' = albums st \<and> currentAlbum st' = currentAlbum st"
proof (cases "filterSongs (activeAlbum st) (allSongs st) = None \<or>
              filterSongs (activeAlbum st) (allSongs st) = Some []")
  case True
  then show ?thesis
    using assms playSong_no_songs [OF True, of seen song draws] by auto
next
  case False
  then obtain fs where fs: "filterSongs (activeAlbum st) (allSongs st) = Some fs" "fs \<noteq> []"
    by auto
  show ?thesis
  proof (cases song)
    case (Some s)
    then show ?thesis
      using assms fs by (auto simp: playSong_def Let_def)
  next
    case None
    then obtain d ds where Cons: "draws = d # ds"
      using assms fs by (cases draws) (auto simp: playSong_def Let_def)
    show ?thesis
    proof (cases "d < length fs")
      case True
      let ?st1 = "st\<lparr>urls := (case audio_src st of None \<Rightarrow> urls st | Some h \<Rightarrow> revokeObjectURL h (urls st))\<rparr>"
      have "map_option (map_sum id (\<lambda>s. loadSong s ?st1)) (reroll fs seen (fs ! d) ds)
            = Some (Inr st')"
        using assms fs None Cons True by (simp add: playSong_def Let_def)
      then obtain r :: "error + Song" where "map_sum id (\<lambda>s. loadSong s ?st1) r = Inr st'"
        by auto
      then show ?thesis
        by (cases r) auto
    next
      case False
      then show ?thesis
        using assms fs None Cons by (simp add: playSong_def Let_def)
    qed
  qed
qed

text \<open>
  A call of \<open>playSong()\<close> never throws. With at least two songs in the matching set
  \<open>fs\<close>, a call that returns has loaded a song of \<open>fs\<close> that is not the song it
  sees as loaded, and it does return once a draw picks such a song. With exactly one
  song in \<open>fs\<close>, it returns with that song loaded.
\<close>

lemma playSong_avoids_seen:
  assumes fs: "filterSongs (activeAlbum st) (allSongs st) = Some fs"
    and draws: "\<forall>d\<in>set draws. d < length fs"
  shows "(\<forall>e. playSong seen None draws st \<noteq> Some (Inl e)) \<and>
         (2 \<le> length fs \<longrightarrow>
            (\<forall>st'. playSong seen None draws st = Some (Inr st') \<longrightarrow>
               (\<exists>s\<in>set fs. currentSong st' = Some s \<and> differs seen s))) \<and>
         (2 \<le> length fs \<and> (\<exists>d\<in>set draws. differs seen (fs ! d)) \<longrightarrow>
            (\<exists>st'. playSong seen None draws st = Some (Inr st'))) \<and>
         (\<forall>x. fs = [x] \<and> draws \<noteq> [] \<longrightarrow>
            (\<exists>st'. playSong seen None draws st = Some (Inr st') \<and> currentSong st' = Some x))"
proof (intro conjI allI impI)
  fix e
  show "playSong seen None draws st \<noteq> Some (Inl e)"
  proof (cases draws)
    case Nil
    then show ?thesis using fs by (simp add: playSong_def Let_def)
  next
    case (Cons d ds)
    then have d: "d < length fs" and ds: "\<forall>d\<in>set ds. d < length fs"
      using draws by auto
    have "reroll fs seen (fs ! d) ds \<noteq> Some (Inl e)"
      using reroll_result [OF ds, of seen "fs ! d"] by auto
    then show ?thesis
      using fs Cons d
      by (cases "reroll fs seen (fs ! d) ds")
         (auto simp: playSong_def Let_def map_sum_def split: sum.splits)
  qed
next
  fix st'
  assume two: "2 \<le> length fs" and run: "playSong seen None draws st = Some (Inr st')"
  have ne: "fs \<noteq> []" using two by auto
  obtain d ds where Cons: "draws = d # ds"
    using run fs ne by (cases draws) (auto simp: playSong_def Let_def)
  then have d: "d < length fs" and ds: "\<forall>d\<in>set ds. d < length fs"
    using draws by auto
  let ?st1 = "st\<lparr>urls := (case audio_src st of None \<Rightarrow> urls st | Some h \<Rightarrow> revokeObjectURL h (urls st))\<rparr>"
  have "map_option (map_sum id (\<lambda>s. loadSong s ?st1)) (reroll fs seen (fs ! d) ds)
        = Some (Inr st')"
    using run fs Cons d ne by (simp add: playSong_def Let_def)
  then obtain r where r: "reroll fs seen (fs ! d) ds = Some r"
    and r': "map_sum id (\<lambda>s. loadSong s ?st1) r = Inr st'"
    by auto
  obtain s where s: "r = Inr s" "s = fs ! d \<or> s \<in> set fs" "1 < length fs \<longrightarrow> differs seen s"
    using reroll_result [OF ds r] by auto
  have "s \<in> set fs" using s(2) d by auto
  moreover have "currentSong st' = Some s" using r' s(1) by auto
  moreover have "differs seen s" using s(3) two by auto
  ultimately show "\<exists>s\<in>set fs. currentSong st' = Some s \<and> differs seen s"
    by blast
next
  assume a: "2 \<le> length fs \<and> (\<exists>d\<in>set draws. differs seen (fs ! d))"
  then obtain d ds where Cons: "draws = d # ds"
    by (cases draws) auto
  then have d: "d < length fs" and ds: "\<forall>d\<in>set ds. d < length fs"
    using draws by auto
  have ne: "fs \<noteq> []" using a by auto
  have "\<exists>s. reroll fs seen (fs ! d) ds = Some (Inr s)"
  proof (cases "differs seen (fs ! d)")
    case True
    then show ?thesis
      by (cases ds) (auto simp: differs_def split: option.splits)
  next
    case False
    then have "\<exists>d\<in>set ds. differs seen (fs ! d)"
      using a Cons by auto
    then show ?thesis
      using reroll_returns [OF ds] by blast
  qed
  then show "\<exists>st'. playSong seen None draws st = Some (Inr st')"
    using fs Cons d ne by (auto simp: playSong_def Let_def)
next
  fix x
  assume a: "fs = [x] \<and> draws \<noteq> []"
  then obtain d ds where Cons: "draws = d # ds"
    by (cases draws) auto
  then have d: "d = 0" using draws a by auto
  have "reroll fs seen x ds = Some (Inr x)"
    using a by (simp add: reroll_short)
  then show "\<exists>st'. playSong seen None draws st = Some (Inr st') \<and> currentSong st' = Some x"
    using fs Cons d a by (simp add: playSong_def Let_def)
qed

text \<open>
  A click on "next" calls the \<open>playSong\<close> of the latest render, which sees the loaded
  song: with at least two songs to choose from, the song it loads is another one.
\<close>

lemma onClickNext_avoids_loaded:
  assumes "filterSongs (activeAlbum st) (allSongs st) = Some fs"
    and "\<forall>d\<in>set draws. d < length fs"
    and "2 \<le> length fs"
    and "onClickNext draws st = Some (Inr st')"
  shows "\<exists>s\<in>set fs. currentSong st' = Some s \<and> differs (currentSong st) s"
  using playSong_avoids_seen [OF assms(1,2), of "currentSong st"] assms(3,4)
  by (simp add: onClickNext_def)

text \<open>
  Claim C6: with at least two songs in the matching set, next-track selection never
  returns the currently loaded song, so no two selections in a row are the same song.
  The code evaluated on a fresh page: the collection of two songs \<open>a\<close> and \<open>b\<close>
  arrives while no song is loaded, and the refresh effect sets \<open>audio.onended\<close>. A
  click on "next" draws index 0 and loads \<open>a\<close>. When the track ends, \<open>audio.onended\<close>
  calls the \<open>playSong\<close> of the render in which the collection arrived, whose
  \<open>currentSong\<close> is still \<open>null\<close>: it draws index 0, does not re-roll, and loads
  \<open>a\<close> again. A click in the same state with the same draw re-rolls and loads \<open>b\<close>.
\<close>

theorem onended_repeats_loaded_song:
  "filterSongs
     (activeAlbum (allSongsChanged (Some [plainSong ''a'' 100 ''One'', plainSong ''b'' 100 ''Two'']) freshPlayer))
     (allSongs (allSongsChanged (Some [plainSong ''a'' 100 ''One'', plainSong ''b'' 100 ''Two'']) freshPlayer))
     = Some [plainSong ''a'' 100 ''One'', plainSong ''b'' 100 ''Two''] \<and>
   (\<exists>st1 st2 st3.
      onClickNext [0]
        (allSongsChanged (Some [plainSong ''a'' 100 ''One'', plainSong ''b'' 100 ''Two'']) freshPlayer)
        = Some (Inr st1) \<and>
      currentSong st1 = Some (plainSong ''a'' 100 ''One'') \<and>
      onendedSong st1 = None \<and>
      onended [0] st1 = Some (Inr st2) \<and>
      currentSong st2 = Some (plainSong ''a'' 100 ''One'') \<and>
      onClickNext [0, 1] st1 = Some (Inr st3) \<and>
      currentSong st3 = Some (plainSong ''b'' 100 ''Two''))"
  by (simp add: onClickNext_def onended_def allSongsChanged_def freshPlayer_def playSong_def
      activeAlbum_def filterSongs_def plainSong_def loadSong_def createObjectURL_def
      revokeObjectURL_def)

end
